theory Spec2Isabelle
  imports Main "HOL-Library.AList"
begin

section \<open>Texts\<close>

text \<open>
  A Python \<open>str\<close> is a sequence of Unicode code points; a code point is a natural
  number. \<open>str\<close> turns an ASCII literal into such a text.
\<close>

type_synonym pystr = "nat list"

definition str :: "string \<Rightarrow> pystr" where
  "str s = map of_char s"

section \<open>The token pattern\<close>

text \<open>
  The handler searches the message text with
  \<^verbatim>\<open>re.search(r'\b[a-zA-Z0-9]{43,44}\b', event.message.text)\<close>.
  The character class \<open>[a-zA-Z0-9]\<close> is ASCII only.
\<close>

definition in_class :: "nat \<Rightarrow> bool" where
  "in_class c = ((97 \<le> c \<and> c \<le> 122) \<or> (65 \<le> c \<and> c \<le> 90) \<or> (48 \<le> c \<and> c \<le> 57))"

text \<open>
  \<open>\b\<close> is defined through the word characters \<open>\w\<close>. For a \<open>str\<close> pattern these
  are the alphanumeric code points and the underscore (code point 95). Below 128 the
  alphanumeric code points are the letters and digits of \<open>in_class\<close>; which code points
  from 128 on are alphanumeric is a table of the Unicode database, taken as the
  parameter \<open>uw\<close>.
\<close>

definition is_word :: "(nat \<Rightarrow> bool) \<Rightarrow> nat \<Rightarrow> bool" where
  "is_word uw c = (if c < 128 then in_class c \<or> c = 95 else uw c)"

text \<open>
  \<open>\b\<close> at position \<open>p\<close> of \<open>s\<close> (\<open>p \<le> length s\<close>): never in the empty text; otherwise
  the character before \<open>p\<close> and the character at \<open>p\<close> differ in being word characters,
  where a missing character (before the start, after the end) counts as a non-word one.
\<close>

definition at_boundary :: "(nat \<Rightarrow> bool) \<Rightarrow> pystr \<Rightarrow> nat \<Rightarrow> bool" where
  "at_boundary uw s p =
     (s \<noteq> [] \<and>
      ((0 < p \<and> is_word uw (s ! (p - 1))) \<noteq> (p < length s \<and> is_word uw (s ! p))))"

text \<open>
  A match attempt at start position \<open>p\<close>: \<open>\b\<close> must hold at \<open>p\<close>; the greedy repeat
  takes as many class characters as there are, up to 44 (\<open>k\<close> of them), and the matcher
  then tries the closing \<open>\b\<close> after \<open>k\<close>, \<open>k - 1\<close>, ... down to 43 characters. The
  result is the length of the match.
\<close>

definition match_at :: "(nat \<Rightarrow> bool) \<Rightarrow> pystr \<Rightarrow> nat \<Rightarrow> nat option" where
  "match_at uw s p =
     (if at_boundary uw s p then
        (let k = length (takeWhile in_class (take 44 (drop p s)))
         in List.find (\<lambda>n. at_boundary uw s (p + n)) (rev [43..<Suc k]))
      else None)"

text \<open>
  \<open>re.search\<close> tries the start positions from left to right and returns the first
  match; \<open>search_from uw s p n\<close> tries the \<open>n\<close> positions from \<open>p\<close> on. The result is
  the start and the length of the match, and \<open>match.group()\<close> is that slice of the text.
\<close>

fun search_from :: "(nat \<Rightarrow> bool) \<Rightarrow> pystr \<Rightarrow> nat \<Rightarrow> nat \<Rightarrow> (nat \<times> nat) option" where
  "search_from uw s p 0 = None"
| "search_from uw s p (Suc n) =
     (case match_at uw s p of
        Some l \<Rightarrow> Some (p, l)
      | None \<Rightarrow> search_from uw s (Suc p) n)"

definition re_search :: "(nat \<Rightarrow> bool) \<Rightarrow> pystr \<Rightarrow> (nat \<times> nat) option" where
  "re_search uw s = search_from uw s 0 (Suc (length s))"

definition match_group :: "pystr \<Rightarrow> nat \<times> nat \<Rightarrow> pystr" where
  "match_group s m = take (snd m) (drop (fst m) s)"


text \<open>
  Python's \<open>str(n)\<close> for an integer, as used by the f-string \<open>f"Chat {chat_id}"\<close>.
\<close>

function str_nat :: "nat \<Rightarrow> pystr" where
  "str_nat n = (if n < 10 then [48 + n] else str_nat (n div 10) @ [48 + n mod 10])"
  by pat_completeness auto
termination
  by (relation "measure (\<lambda>n. n)") auto

declare str_nat.simps [simp del]

definition str_int :: "int \<Rightarrow> pystr" where
  "str_int i = (if i < 0 then 45 # str_nat (nat (- i)) else str_nat (nat i))"

section \<open>Process state, exceptions and the external client\<close>

text \<open>
  An exception is an instance of a subclass of \<open>Exception\<close>: its class name and its
  \<open>str()\<close>. Every \<open>except\<close> clause of the program is \<open>except Exception\<close>.
\<close>

datatype exn = Exn (exn_class: pystr) (exn_str: pystr)

datatype level = INFO | ERROR

text \<open>
  A chat entity of the client library; \<open>title\<close> is \<open>None\<close> when the entity has no
  attribute \<open>title\<close> (\<open>hasattr(entity, 'title')\<close> is false).
\<close>

datatype entity = Entity (title: "pystr option")

text \<open>The values that \<open>json.load\<close> returns and \<open>json.dump\<close> accepts; a float is kept as its \<open>repr\<close>.\<close>

datatype pyval =
    PNone
  | PBool bool
  | PInt int
  | PFloat pystr
  | PStr pystr
  | PList "pyval list"
  | PDict "(pystr \<times> pyval) list"

text \<open>
  What reading the config file yields when it exists: \<open>Parses v\<close> when \<open>open\<close> succeeds
  and \<open>json.load\<close> returns \<open>v\<close>, \<open>Fails e\<close> when \<open>open\<close>, the read or the parser raises
  \<open>e\<close>. \<open>json.dump\<close> followed by \<open>json.load\<close> gives back the value written.
\<close>

datatype stored = Parses pyval | Fails exn

record world =
  log :: "(level \<times> pystr) list"
  source_entities :: "int \<Rightarrow> entity option"
  lookups :: "int list"
  outbox :: "(int \<times> pystr) list"
  running :: bool
  config_file :: "stored option"
  file_mode :: nat
  open_fault :: "exn option"
  dump_fault :: "exn option"
  torn_read :: exn
  chmod_fault :: "exn option"

text \<open>
  \<^item> \<open>log\<close>: the records handed to \<open>logger\<close>, oldest first;
  \<^item> \<open>source_entities\<close>: the cache \<open>self.source_entities\<close>;
  \<^item> \<open>lookups\<close>: the chat ids passed to \<open>client.get_entity\<close> so far;
  \<^item> \<open>outbox\<close>: the (chat, text) pairs passed to \<open>client.send_message\<close> so far;
  \<^item> \<open>running\<close>: \<open>self.running\<close>, read by the listening loop;
  \<^item> \<open>config_file\<close>: \<open>None\<close> when \<open>os.path.exists(self.config_file)\<close> is false;
  \<^item> \<open>file_mode\<close>: the permission bits of the config file;
  \<^item> \<open>open_fault\<close>: the exception that \<open>open(self.config_file, "w")\<close> raises, if any;
  \<^item> \<open>dump_fault\<close>: the exception that \<open>json.dump\<close>, or the close that ends the
    \<open>with\<close> block, raises after the file was opened for writing, if any (disk full, I/O
    error);
  \<^item> \<open>torn_read\<close>: the exception that reading the file raises once it was truncated and
    not written to its end: an empty or cut-off text is not a JSON document;
  \<^item> \<open>chmod_fault\<close>: the exception that \<open>os.chmod\<close> raises, if any.
\<close>

text \<open>
  The client library is external. Its answers are given by a \<open>client\<close>: the reply to a
  call may depend on how many calls of that kind were made before, so a lookup may fail
  once and succeed later.
\<close>

record client =
  get_entity_reply :: "nat \<Rightarrow> int \<Rightarrow> exn + entity"
  send_message_reply :: "nat \<Rightarrow> int \<Rightarrow> pystr \<Rightarrow> exn option"

text \<open>A computation returns a value or raises, and leaves a state in both cases.\<close>

type_synonym 'a io = "world \<Rightarrow> (exn + 'a) \<times> world"

definition io_return :: "'a \<Rightarrow> 'a io" where
  "io_return x w = (Inr x, w)"

definition io_raise :: "exn \<Rightarrow> 'a io" where
  "io_raise e w = (Inl e, w)"

definition io_bind :: "'a io \<Rightarrow> ('a \<Rightarrow> 'b io) \<Rightarrow> 'b io" where
  "io_bind m f w = (case m w of (Inl e, w') \<Rightarrow> (Inl e, w') | (Inr x, w') \<Rightarrow> f x w')"

definition io_try :: "'a io \<Rightarrow> (exn \<Rightarrow> 'a io) \<Rightarrow> 'a io" where
  "io_try m h w = (case m w of (Inl e, w') \<Rightarrow> h e w' | (Inr x, w') \<Rightarrow> (Inr x, w'))"

definition logger_info :: "pystr \<Rightarrow> unit io" where
  "logger_info msg w = (Inr (), w\<lparr>log := log w @ [(INFO, msg)]\<rparr>)"

definition logger_error :: "pystr \<Rightarrow> unit io" where
  "logger_error msg w = (Inr (), w\<lparr>log := log w @ [(ERROR, msg)]\<rparr>)"

definition client_get_entity :: "client \<Rightarrow> int \<Rightarrow> entity io" where
  "client_get_entity cl chat_id w =
     (get_entity_reply cl (length (lookups w)) chat_id, w\<lparr>lookups := lookups w @ [chat_id]\<rparr>)"

definition client_send_message :: "client \<Rightarrow> int \<Rightarrow> pystr \<Rightarrow> unit io" where
  "client_send_message cl dest msg w =
     ((case send_message_reply cl (length (outbox w)) dest msg of
         Some e \<Rightarrow> Inl e
       | None \<Rightarrow> Inr ()),
      w\<lparr>outbox := outbox w @ [(dest, msg)]\<rparr>)"

section \<open>TelegramForwarder\<close>

definition chat_label :: "int \<Rightarrow> pystr" where
  "chat_label chat_id = str ''Chat '' @ str_int chat_id"

text \<open>
  \<open>get_chat_name\<close>. The first block yields \<open>Some r\<close> when the function returns \<open>r\<close> from
  the \<open>except\<close> clause, and \<open>None\<close> when control falls through to the cache read.
\<close>

definition get_chat_name :: "client \<Rightarrow> int \<Rightarrow> pystr io" where
  "get_chat_name cl chat_id =
     io_bind
       (\<lambda>w. if source_entities w chat_id = None then
               io_try
                 (io_bind (client_get_entity cl chat_id) (\<lambda>entity w'.
                    (Inr None, w'\<lparr>source_entities := (source_entities w')(chat_id \<mapsto> entity)\<rparr>)))
                 (\<lambda>e. io_bind
                    (logger_error (str ''Error getting entity '' @ str_int chat_id @ str '': '' @ exn_str e))
                    (\<lambda>_. io_return (Some (chat_label chat_id))))
                 w
             else io_return None w)
       (\<lambda>early. case early of
          Some r \<Rightarrow> io_return r
        | None \<Rightarrow> (\<lambda>w. case source_entities w chat_id of
            None \<Rightarrow> io_raise (Exn (str ''KeyError'') (str_int chat_id)) w
          | Some entity \<Rightarrow>
              io_return (case title entity of Some t \<Rightarrow> t | None \<Rightarrow> chat_label chat_id) w))"

record event =
  event_chat_id :: int
  event_text :: "pystr option"

text \<open>
  \<open>new_message_handler\<close>, the callback installed by \<open>setup_message_handlers\<close>. It closes
  over \<open>source_names\<close>, \<open>dest_name\<close> and \<open>destination_chat_id\<close>. The default argument of
  \<open>source_names.get\<close> is evaluated before the call, so \<open>get_chat_name\<close> runs for every
  event. A message text that is \<open>None\<close> or empty is falsy.
\<close>

definition new_message_handler ::
  "(nat \<Rightarrow> bool) \<Rightarrow> client \<Rightarrow> (int \<Rightarrow> pystr option) \<Rightarrow> pystr \<Rightarrow> int \<Rightarrow> event \<Rightarrow> unit io" where
  "new_message_handler uw cl source_names dest_name destination_chat_id ev =
     io_try
       (io_bind (get_chat_name cl (event_chat_id ev)) (\<lambda>dflt.
          let source_name = (case source_names (event_chat_id ev) of Some n \<Rightarrow> n | None \<Rightarrow> dflt)
          in case event_text ev of
               None \<Rightarrow> io_return ()
             | Some txt \<Rightarrow>
                 if txt = [] then io_return ()
                 else (case re_search uw txt of
                         None \<Rightarrow> io_return ()
                       | Some m \<Rightarrow>
                           let token = match_group txt m
                           in io_bind (logger_info (str ''Found token: '' @ token @ str '' in '' @ source_name)) (\<lambda>_.
                              io_bind (client_send_message cl destination_chat_id token) (\<lambda>_.
                              logger_info (str ''Successfully forwarded token from '' @ source_name
                                @ str '' to '' @ dest_name))))))
       (\<lambda>e. logger_error (str ''Error processing message: '' @ exn_str e))"


section \<open>ConfigManager\<close>

definition path_exists :: "bool io" where
  "path_exists w = (Inr (config_file w \<noteq> None), w)"

definition read_json :: "pyval io" where
  "read_json w =
     (case config_file w of
        None \<Rightarrow> (Inl (Exn (str ''FileNotFoundError'') (str ''[Errno 2] No such file or directory'')), w)
      | Some (Fails e) \<Rightarrow> (Inl e, w)
      | Some (Parses v) \<Rightarrow> (Inr v, w))"

text \<open>
  Writing is not atomic. \<open>open(self.config_file, "w")\<close> either raises and leaves the file
  as it was, or truncates it; the old content is gone from then on.
\<close>

definition open_for_writing :: "unit io" where
  "open_for_writing w =
     (case open_fault w of
        Some e \<Rightarrow> (Inl e, w)
      | None \<Rightarrow> (Inr (), w\<lparr>config_file := Some (Fails (torn_read w))\<rparr>))"

text \<open>
  \<open>json.dump(config, file, indent=2)\<close> on the file just opened, up to the close at the end
  of the \<open>with\<close> block: when it raises, the file stays truncated or cut off; otherwise
  the file holds the text of \<open>config\<close>.
\<close>

definition json_dump :: "pyval \<Rightarrow> unit io" where
  "json_dump v w =
     (case dump_fault w of
        Some e \<Rightarrow> (Inl e, w)
      | None \<Rightarrow> (Inr (), w\<lparr>config_file := Some (Parses v)\<rparr>))"

definition os_chmod :: "nat \<Rightarrow> unit io" where
  "os_chmod m w =
     (case chmod_fault w of
        Some e \<Rightarrow> (Inl e, w)
      | None \<Rightarrow> (Inr (), w\<lparr>file_mode := m\<rparr>))"

fun type_name :: "pyval \<Rightarrow> pystr" where
  "type_name PNone = str ''NoneType''"
| "type_name (PBool b) = str ''bool''"
| "type_name (PInt i) = str ''int''"
| "type_name (PFloat r) = str ''float''"
| "type_name (PStr s) = str ''str''"
| "type_name (PList vs) = str ''list''"
| "type_name (PDict d) = str ''dict''"

text \<open>\<open>config.get(key)\<close>: only a dict has the method; a missing key gives \<open>None\<close>.\<close>

definition dict_get :: "(pystr \<times> pyval) list \<Rightarrow> pystr \<Rightarrow> pyval" where
  "dict_get d k = (case map_of d k of Some v \<Rightarrow> v | None \<Rightarrow> PNone)"

fun py_get :: "pyval \<Rightarrow> pystr \<Rightarrow> pyval io" where
  "py_get (PDict d) k = io_return (dict_get d k)"
| "py_get c k =
     io_raise (Exn (str ''AttributeError'')
       ([39] @ type_name c @ [39] @ str '' object has no attribute '' @ [39] @ str ''get'' @ [39]))"

text \<open>\<open>config[key] = value\<close> with a string key; the result is the updated \<open>config\<close>.\<close>

fun py_setitem :: "pyval \<Rightarrow> pystr \<Rightarrow> pyval \<Rightarrow> pyval io" where
  "py_setitem (PDict d) k v = io_return (PDict (AList.update k v d))"
| "py_setitem (PList vs) k v =
     io_raise (Exn (str ''TypeError'') (str ''list indices must be integers or slices, not str''))"
| "py_setitem c k v =
     io_raise (Exn (str ''TypeError'')
       ([39] @ type_name c @ [39] @ str '' object does not support item assignment''))"

definition load_credentials :: "(pyval \<times> pyval \<times> pyval) io" where
  "load_credentials =
     io_try
       (io_bind path_exists (\<lambda>ex.
          if ex then
            io_bind read_json (\<lambda>config.
            io_bind (py_get config (str ''api_id'')) (\<lambda>a.
            io_bind (py_get config (str ''api_hash'')) (\<lambda>h.
            io_bind (py_get config (str ''phone_number'')) (\<lambda>p.
            io_return (a, h, p)))))
          else io_return (PNone, PNone, PNone)))
       (\<lambda>e. io_bind (logger_error (str ''Error loading credentials: '' @ exn_str e)) (\<lambda>_.
            io_return (PNone, PNone, PNone)))"

text \<open>\<open>os_name\<close> is \<open>os.name\<close>; \<open>0o600\<close> is 384.\<close>

definition save_credentials :: "pystr \<Rightarrow> pystr \<Rightarrow> pystr \<Rightarrow> pystr \<Rightarrow> unit io" where
  "save_credentials os_name api_id api_hash phone_number =
     io_try
       (let config = PDict [(str ''api_id'', PStr api_id),
                            (str ''api_hash'', PStr api_hash),
                            (str ''phone_number'', PStr phone_number)]
        in io_bind open_for_writing (\<lambda>_.
           io_bind (json_dump config) (\<lambda>_.
           if os_name \<noteq> str ''nt'' then os_chmod 384 else io_return ())))
       (\<lambda>e. logger_error (str ''Error saving credentials: '' @ exn_str e))"

text \<open>\<open>now\<close> is \<open>datetime.now().isoformat()\<close>.\<close>

definition save_chat_config :: "pystr \<Rightarrow> int list \<Rightarrow> int \<Rightarrow> unit io" where
  "save_chat_config now source_chat_ids destination_chat_id =
     io_try
       (io_bind path_exists (\<lambda>ex.
        io_bind (if ex then read_json else io_return (PDict [])) (\<lambda>config.
        io_bind (py_setitem config (str ''source_chat_ids'') (PList (map PInt source_chat_ids))) (\<lambda>config.
        io_bind (py_setitem config (str ''destination_chat_id'') (PInt destination_chat_id)) (\<lambda>config.
        io_bind (py_setitem config (str ''last_updated'') (PStr now)) (\<lambda>config.
        io_bind open_for_writing (\<lambda>_.
        json_dump config)))))))
       (\<lambda>e. logger_error (str ''Error saving chat config: '' @ exn_str e))"

definition load_chat_config :: "(pyval \<times> pyval) io" where
  "load_chat_config =
     io_try
       (io_bind path_exists (\<lambda>ex.
          if ex then
            io_bind read_json (\<lambda>config.
            io_bind (py_get config (str ''source_chat_ids'')) (\<lambda>ids.
            io_bind (py_get config (str ''destination_chat_id'')) (\<lambda>dest.
            io_return (ids, dest))))
          else io_return (PNone, PNone)))
       (\<lambda>e. io_bind (logger_error (str ''Error loading chat config: '' @ exn_str e)) (\<lambda>_.
            io_return (PNone, PNone)))"

section \<open>Notions of the specification\<close>

text \<open>
  A word-boundary-delimited run of exactly 43 or 44 ASCII alphanumeric characters:
  the \<open>l\<close> characters of \<open>s\<close> from position \<open>p\<close> on.
\<close>

definition token_run :: "(nat \<Rightarrow> bool) \<Rightarrow> pystr \<Rightarrow> nat \<Rightarrow> nat \<Rightarrow> bool" where
  "token_run uw s p l =
     ((l = 43 \<or> l = 44) \<and> p + l \<le> length s \<and> list_all in_class (take l (drop p s)) \<and>
      at_boundary uw s p \<and> at_boundary uw s (p + l))"

text \<open>
  A maximal alphanumeric run: \<open>n\<close> alphanumeric characters from position \<open>p\<close> on, with a
  non-alphanumeric character or the end of the text on either side.
\<close>

definition alnum_run :: "pystr \<Rightarrow> nat \<Rightarrow> nat \<Rightarrow> bool" where
  "alnum_run s p n =
     (0 < n \<and> p + n \<le> length s \<and> list_all in_class (take n (drop p s)) \<and>
      (p = 0 \<or> \<not> in_class (s ! (p - 1))) \<and>
      (p + n = length s \<or> \<not> in_class (s ! (p + n))))"

section \<open>Example inputs\<close>

definition no_more_words :: "nat \<Rightarrow> bool" where
  "no_more_words c = False"

definition token43 :: pystr where
  "token43 = str ''aB3xY9kLp2Qw8Rt5Zv1Nc7Mf4Hj6Gd0Ss3Ee9Tt1YyZ''"

definition token44 :: pystr where
  "token44 = str ''7Hq2Lm9Xc4Vb6Nn1Zz8Kk3Jj5Pp0Rr2Tt4Ww6Yy8Aa1B''"

definition prose_text :: pystr where
  "prose_text = str ''check out '' @ token43 @ str '' pls''"

definition two_token_text :: pystr where
  "two_token_text = token44 @ str '', '' @ token43"

definition underscore_text :: pystr where
  "underscore_text = str ''_'' @ token43"

definition scenario_text :: pystr where
  "scenario_text = str ''check out aB3xY9kLp2Qw8Rt5Zv1Nc7Mf4Hj6Gd0Ss3Ee9Tt1Yy pls''"

definition parse_error :: exn where
  "parse_error = Exn (str ''JSONDecodeError'') (str ''Expecting value: line 1 column 1 (char 0)'')"

definition fresh_world :: world where
  "fresh_world =
     \<lparr>log = [], source_entities = Map.empty, lookups = [], outbox = [], running = True,
      config_file = None, file_mode = 420, open_fault = None, dump_fault = None,
      torn_read = parse_error, chmod_fault = None\<rparr>"

definition lookup_error :: exn where
  "lookup_error = Exn (str ''ValueError'') (str ''Cannot find any entity'')"

definition send_error :: exn where
  "send_error = Exn (str ''ChatWriteForbiddenError'') (str ''You cannot write in this chat'')"

definition good_client :: client where
  "good_client =
     \<lparr>get_entity_reply = (\<lambda>n chat_id. Inr (Entity (Some (str ''Signals'')))),
      send_message_reply = (\<lambda>n dest msg. None)\<rparr>"

definition failing_client :: client where
  "failing_client =
     \<lparr>get_entity_reply = (\<lambda>n chat_id. Inl lookup_error),
      send_message_reply = (\<lambda>n dest msg. Some send_error)\<rparr>"

definition untitled_client :: client where
  "untitled_client =
     \<lparr>get_entity_reply = (\<lambda>n chat_id. Inr (Entity None)),
      send_message_reply = (\<lambda>n dest msg. None)\<rparr>"

definition no_names :: "int \<Rightarrow> pystr option" where
  "no_names = Map.empty"

definition prose_event :: event where
  "prose_event = \<lparr>event_chat_id = 5, event_text = Some prose_text\<rparr>"

definition two_token_event :: event where
  "two_token_event = \<lparr>event_chat_id = 5, event_text = Some two_token_text\<rparr>"

definition underscore_event :: event where
  "underscore_event = \<lparr>event_chat_id = 5, event_text = Some underscore_text\<rparr>"

definition photo_event :: event where
  "photo_event = \<lparr>event_chat_id = 5, event_text = None\<rparr>"

definition scenario_event :: event where
  "scenario_event = \<lparr>event_chat_id = 5, event_text = Some scenario_text\<rparr>"

definition credentials_only :: pyval where
  "credentials_only =
     PDict [(str ''api_id'', PStr (str ''1'')), (str ''api_hash'', PStr (str ''h'')),
            (str ''phone_number'', PStr (str ''+100''))]"


definition stamp :: pystr where
  "stamp = str ''2024-05-01T12:00:00''"

definition corrupt_world :: world where
  "corrupt_world = fresh_world\<lparr>config_file := Some (Fails parse_error)\<rparr>"

definition list_world :: world where
  "list_world = fresh_world\<lparr>config_file := Some (Parses (PList []))\<rparr>"

definition credentials_world :: world where
  "credentials_world = fresh_world\<lparr>config_file := Some (Parses credentials_only)\<rparr>"


section \<open>Properties of the token pattern\<close>

lemma in_class_word: "in_class c \<Longrightarrow> is_word uw c"
  by (auto simp: in_class_def is_word_def)

lemma slice_all:
  assumes "p + l \<le> length s"
  shows "list_all P (take l (drop p s)) \<longleftrightarrow> (\<forall>i<l. P (s ! (p + i)))"
proof -
  define xs where "xs = take l (drop p s)"
  have len: "length xs = l" unfolding xs_def using assms by auto
  have nth: "xs ! i = s ! (p + i)" if "i < l" for i
    unfolding xs_def using that assms by auto
  have "list_all P xs \<longleftrightarrow> (\<forall>i<length xs. P (xs ! i))" by (rule list_all_length)
  also have "\<dots> \<longleftrightarrow> (\<forall>i<l. P (s ! (p + i)))" using len nth by auto
  finally show ?thesis unfolding xs_def .
qed

lemma greedy_le: "length (takeWhile in_class (take 44 (drop p s))) \<le> 44"
  by (rule order_trans [OF length_takeWhile_le]) simp

lemma greedy_iff:
  assumes pos: "0 < l"
  shows "l \<le> length (takeWhile in_class (take 44 (drop p s))) \<longleftrightarrow>
     l \<le> 44 \<and> p + l \<le> length s \<and> list_all in_class (take l (drop p s))"
proof
  let ?xs = "take 44 (drop p s)"
  assume le: "l \<le> length (takeWhile in_class ?xs)"
  have a: "l \<le> length ?xs" using le length_takeWhile_le [of in_class ?xs] by linarith
  then have b: "l \<le> 44" "p + l \<le> length s" using pos by auto
  have "\<forall>i<l. in_class (s ! (p + i))"
  proof (intro allI impI)
    fix i assume i: "i < l"
    then have il: "i < length (takeWhile in_class ?xs)" using le by simp
    then have "takeWhile in_class ?xs ! i \<in> set (takeWhile in_class ?xs)" by simp
    then have "in_class (takeWhile in_class ?xs ! i)" by (rule set_takeWhileD [THEN conjunct2])
    moreover have "takeWhile in_class ?xs ! i = ?xs ! i" using il by (rule takeWhile_nth)
    moreover have "?xs ! i = s ! (p + i)" using i b by auto
    ultimately show "in_class (s ! (p + i))" by simp
  qed
  then have "list_all in_class (take l (drop p s))" using slice_all [OF b(2)] by blast
  with b show "l \<le> 44 \<and> p + l \<le> length s \<and> list_all in_class (take l (drop p s))" by blast
next
  let ?xs = "take 44 (drop p s)"
  assume r: "l \<le> 44 \<and> p + l \<le> length s \<and> list_all in_class (take l (drop p s))"
  then have le: "p + l \<le> length s" by simp
  have all: "\<forall>i<l. in_class (s ! (p + i))" using r slice_all [OF le, of in_class] by blast
  have a: "l \<le> length ?xs" using r by auto
  have "in_class (?xs ! i)" if "i < l" for i
  proof -
    have "?xs ! i = s ! (p + i)" using that r by auto
    then show ?thesis using all that by simp
  qed
  then show "l \<le> length (takeWhile in_class ?xs)" using a by (rule length_takeWhile_less_P_nth)
qed

lemma candidates:
  "k \<le> 44 \<Longrightarrow> rev [43..<Suc k] = (if k = 44 then [44, 43] else if k = 43 then [43] else [])"
  by (auto simp: upt_rec [of 43] upt_rec [of 44])

lemma no_boundary_inside:
  assumes "in_class (s ! (r - 1))" "in_class (s ! r)" "0 < r" "r < length s"
  shows "\<not> at_boundary uw s r"
  using assms by (simp add: at_boundary_def in_class_word)

lemma match_at_iff: "match_at uw s p = Some l \<longleftrightarrow> token_run uw s p l"
proof -
  define k where "k = length (takeWhile in_class (take 44 (drop p s)))"
  have k44: "k \<le> 44" unfolding k_def by (rule greedy_le)
  have kiff: "\<And>l. 0 < l \<Longrightarrow>
      l \<le> k \<longleftrightarrow> l \<le> 44 \<and> p + l \<le> length s \<and> list_all in_class (take l (drop p s))"
    unfolding k_def by (rule greedy_iff)
  have m: "match_at uw s p =
      (if at_boundary uw s p then List.find (\<lambda>n. at_boundary uw s (p + n)) (rev [43..<Suc k]) else None)"
    by (simp add: match_at_def k_def Let_def)
  have inside: "\<not> at_boundary uw s (p + 43)" if "k = 44"
  proof -
    have "44 \<le> k" using that by simp
    then have le: "p + 44 \<le> length s" and "list_all in_class (take 44 (drop p s))"
      using kiff [of 44] by auto
    then have "\<forall>i<44. in_class (s ! (p + i))" using slice_all [OF le, of in_class] by blast
    then have c: "in_class (s ! (p + 42))" "in_class (s ! (p + 43))" "p + 43 < length s"
      using le by simp_all
    define r where "r = p + 43"
    have "r - 1 = p + 42" by (simp add: r_def)
    then have "in_class (s ! (r - 1))" using c(1) by (rule ssubst)
    moreover have "in_class (s ! r)" "0 < r" "r < length s" using c by (simp_all add: r_def)
    ultimately have "\<not> at_boundary uw s r" by (rule no_boundary_inside)
    then show ?thesis by (simp add: r_def)
  qed
  show ?thesis
  proof (cases "k = 44")
    case True
    then show ?thesis using inside kiff [of 44] kiff [of 43] k44
      by (auto simp: m candidates token_run_def)
  next
    case False
    note k_ne = False
    show ?thesis
    proof (cases "k = 43")
      case True
      then show ?thesis using kiff [of 44] kiff [of 43]
        by (auto simp: m candidates token_run_def)
    next
      case False
      with k_ne k44 have "k < 43" by simp
      then have "\<not> 43 \<le> k" "\<not> 44 \<le> k" by simp_all
      then show ?thesis using kiff [of 44] kiff [of 43] k44 k_ne False
        by (auto simp: m candidates token_run_def)
    qed
  qed
qed

lemma search_from_Some_iff:
  "search_from uw s p n = Some (q, l) \<longleftrightarrow>
     p \<le> q \<and> q < p + n \<and> match_at uw s q = Some l \<and>
     (\<forall>j. p \<le> j \<and> j < q \<longrightarrow> match_at uw s j = None)"
proof (induction n arbitrary: p)
  case 0
  then show ?case by simp
next
  case (Suc n)
  show ?case
  proof (cases "match_at uw s p")
    case None
    have "search_from uw s p (Suc n) = Some (q, l) \<longleftrightarrow> search_from uw s (Suc p) n = Some (q, l)"
      using None by simp
    also have "\<dots> \<longleftrightarrow> Suc p \<le> q \<and> q < Suc p + n \<and> match_at uw s q = Some l \<and>
        (\<forall>j. Suc p \<le> j \<and> j < q \<longrightarrow> match_at uw s j = None)" by (rule Suc.IH)
    also have "\<dots> \<longleftrightarrow> p \<le> q \<and> q < p + Suc n \<and> match_at uw s q = Some l \<and>
        (\<forall>j. p \<le> j \<and> j < q \<longrightarrow> match_at uw s j = None)"
    proof -
      have "p \<le> j \<longleftrightarrow> j = p \<or> Suc p \<le> j" for j by auto
      moreover have "q \<noteq> p" if "match_at uw s q = Some l" using that None by auto
      ultimately show ?thesis using None by auto
    qed
    finally show ?thesis .
  next
    case (Some m)
    then show ?thesis by (auto simp: not_less dest: le_neq_implies_less)
  qed
qed

lemma search_from_None_iff:
  "search_from uw s p n = None \<longleftrightarrow> (\<forall>j. p \<le> j \<and> j < p + n \<longrightarrow> match_at uw s j = None)"
proof (induction n arbitrary: p)
  case 0
  then show ?case by auto
next
  case (Suc n)
  show ?case
  proof (cases "match_at uw s p")
    case None
    have "p \<le> j \<longleftrightarrow> j = p \<or> Suc p \<le> j" for j by auto
    then show ?thesis using None Suc.IH [of "Suc p"] by auto
  next
    case (Some m)
    then show ?thesis by auto
  qed
qed

lemma token_run_start: "token_run uw s p l \<Longrightarrow> p < Suc (length s)"
  by (simp add: token_run_def)

lemma re_search_Some_iff:
  "re_search uw s = Some (p, l) \<longleftrightarrow>
     token_run uw s p l \<and> (\<forall>q<p. \<forall>m. \<not> token_run uw s q m)"
  unfolding re_search_def search_from_Some_iff
  using token_run_start [of uw s p l] by (auto simp: match_at_iff [symmetric])

lemma re_search_None_iff:
  "re_search uw s = None \<longleftrightarrow> (\<forall>p l. \<not> token_run uw s p l)"
proof -
  have "(\<forall>j. 0 \<le> j \<and> j < 0 + Suc (length s) \<longrightarrow> match_at uw s j = None) \<longleftrightarrow>
        (\<forall>p l. \<not> token_run uw s p l)"
  proof
    assume a: "\<forall>j. 0 \<le> j \<and> j < 0 + Suc (length s) \<longrightarrow> match_at uw s j = None"
    show "\<forall>p l. \<not> token_run uw s p l"
    proof (intro allI notI)
      fix p l assume t: "token_run uw s p l"
      then have "match_at uw s p = Some l" by (simp add: match_at_iff)
      moreover have "match_at uw s p = None" using a token_run_start [OF t] by simp
      ultimately show False by simp
    qed
  next
    assume a: "\<forall>p l. \<not> token_run uw s p l"
    show "\<forall>j. 0 \<le> j \<and> j < 0 + Suc (length s) \<longrightarrow> match_at uw s j = None"
    proof (intro allI impI)
      fix j
      show "match_at uw s j = None"
      proof (cases "match_at uw s j")
        case (Some l)
        then have "token_run uw s j l" by (simp add: match_at_iff)
        with a show ?thesis by simp
      qed simp
    qed
  qed
  then show ?thesis
    unfolding re_search_def search_from_None_iff .
qed

text \<open>The two ends of a run, read off the slice.\<close>

lemma slice_first:
  assumes "0 < l" "p + l \<le> length s" "list_all P (take l (drop p s))"
  shows "P (s ! p)"
proof -
  have "\<forall>i<l. P (s ! (p + i))" using assms(3) slice_all [OF assms(2), of P] by blast
  then have "P (s ! (p + 0))" using assms(1) by blast
  then show ?thesis by simp
qed

lemma slice_last:
  assumes "0 < l" "p + l \<le> length s" "list_all P (take l (drop p s))"
  shows "P (s ! (p + l - 1))"
proof -
  have "\<forall>i<l. P (s ! (p + i))" using assms(3) slice_all [OF assms(2), of P] by blast
  moreover have "l - 1 < l" using assms(1) by simp
  ultimately have "P (s ! (p + (l - 1)))" by blast
  moreover have "p + (l - 1) = p + l - 1" using assms(1) by simp
  ultimately show ?thesis by simp
qed

lemma boundary_before_word:
  assumes "p < length s" "is_word uw (s ! p)"
  shows "at_boundary uw s p \<longleftrightarrow> p = 0 \<or> \<not> is_word uw (s ! (p - 1))"
  using assms by (auto simp: at_boundary_def)

lemma boundary_after_word:
  assumes "0 < r" "r \<le> length s" "is_word uw (s ! (r - 1))"
  shows "at_boundary uw s r \<longleftrightarrow> r = length s \<or> \<not> is_word uw (s ! r)"
  using assms by (auto simp: at_boundary_def)

lemma token_run_by_neighbours:
  assumes l: "l = 43 \<or> l = 44" and le: "p + l \<le> length s"
    and cls: "list_all in_class (take l (drop p s))"
  shows "token_run uw s p l \<longleftrightarrow>
     (p = 0 \<or> \<not> is_word uw (s ! (p - 1))) \<and> (p + l = length s \<or> \<not> is_word uw (s ! (p + l)))"
proof -
  have pos: "0 < l" using l by auto
  have "is_word uw (s ! p)" using slice_first [OF pos le cls] by (rule in_class_word)
  moreover have "p < length s" using pos le by simp
  ultimately have a: "at_boundary uw s p \<longleftrightarrow> p = 0 \<or> \<not> is_word uw (s ! (p - 1))"
    by (intro boundary_before_word)
  have "is_word uw (s ! (p + l - 1))" using slice_last [OF pos le cls] by (rule in_class_word)
  moreover have "0 < p + l" using pos by simp
  ultimately have b: "at_boundary uw s (p + l) \<longleftrightarrow> p + l = length s \<or> \<not> is_word uw (s ! (p + l))"
    using le by (intro boundary_after_word)
  show ?thesis using l le cls by (simp add: token_run_def a b)
qed

lemma non_word_non_class: "\<not> is_word uw c \<Longrightarrow> \<not> in_class c"
  using in_class_word by blast

lemma token_run_maximal: "token_run uw s p l \<Longrightarrow> alnum_run s p l"
proof -
  assume t: "token_run uw s p l"
  then have l: "l = 43 \<or> l = 44" and le: "p + l \<le> length s"
    and cls: "list_all in_class (take l (drop p s))" by (simp_all add: token_run_def)
  from t token_run_by_neighbours [OF l le cls, of uw]
  have "(p = 0 \<or> \<not> is_word uw (s ! (p - 1))) \<and> (p + l = length s \<or> \<not> is_word uw (s ! (p + l)))"
    by simp
  then have "(p = 0 \<or> \<not> in_class (s ! (p - 1))) \<and> (p + l = length s \<or> \<not> in_class (s ! (p + l)))"
    using non_word_non_class by blast
  then show ?thesis using l le cls by (auto simp: alnum_run_def)
qed

lemma alnum_run_member:
  assumes "alnum_run s q m" "q \<le> j" "j < q + m"
  shows "in_class (s ! j)"
proof -
  have le: "q + m \<le> length s" and cls: "list_all in_class (take m (drop q s))"
    using assms(1) by (simp_all add: alnum_run_def)
  have "\<forall>i<m. in_class (s ! (q + i))" using cls slice_all [OF le, of in_class] by blast
  moreover have "j - q < m" using assms by simp
  ultimately have "in_class (s ! (q + (j - q)))" by blast
  then show ?thesis using assms(2) by simp
qed

lemma alnum_run_overlap_start:
  assumes a: "alnum_run s p n" and b: "alnum_run s q m" and o1: "q < p + n" and o2: "p < q + m"
  shows "q \<le> p"
proof (rule ccontr)
  assume "\<not> q \<le> p"
  then have pq: "p < q" by simp
  then have "p \<le> q - 1" "q - 1 < p + n" using o1 by simp_all
  then have "in_class (s ! (q - 1))" using a by (intro alnum_run_member [OF a])
  moreover have "q = 0 \<or> \<not> in_class (s ! (q - 1))" using b by (simp add: alnum_run_def)
  ultimately show False using pq by simp
qed

lemma alnum_run_overlap_end:
  assumes a: "alnum_run s p n" and b: "alnum_run s p m"
  shows "m \<le> n"
proof (rule ccontr)
  assume "\<not> m \<le> n"
  then have nm: "n < m" by simp
  then have "in_class (s ! (p + n))" using b by (intro alnum_run_member [OF b]) simp_all
  moreover have "p + m \<le> length s" using b by (simp add: alnum_run_def)
  then have "p + n \<noteq> length s" using nm by simp
  then have "\<not> in_class (s ! (p + n))" using a by (simp add: alnum_run_def)
  ultimately show False by simp
qed

lemma alnum_run_overlap:
  assumes a: "alnum_run s p n" and b: "alnum_run s q m" and o1: "q < p + n" and o2: "p < q + m"
  shows "p = q \<and> n = m"
proof -
  have "q \<le> p" using a b o1 o2 by (rule alnum_run_overlap_start)
  moreover have "p \<le> q" using b a o2 o1 by (rule alnum_run_overlap_start)
  ultimately have pq: "p = q" by simp
  have "m \<le> n" using a b unfolding pq by (rule alnum_run_overlap_end)
  moreover have "n \<le> m" using b a unfolding pq by (rule alnum_run_overlap_end)
  ultimately show ?thesis using pq by simp
qed

section \<open>Properties of the forwarder\<close>

lemma get_chat_name_cached:
  assumes "source_entities w chat_id = Some entity"
  shows "get_chat_name cl chat_id w =
    (Inr (case title entity of Some t \<Rightarrow> t | None \<Rightarrow> chat_label chat_id), w)"
  using assms by (simp add: get_chat_name_def io_bind_def io_return_def)

lemma get_chat_name_found:
  assumes "source_entities w chat_id = None"
    and "get_entity_reply cl (length (lookups w)) chat_id = Inr entity"
  shows "get_chat_name cl chat_id w =
    (Inr (case title entity of Some t \<Rightarrow> t | None \<Rightarrow> chat_label chat_id),
     w\<lparr>lookups := lookups w @ [chat_id],
       source_entities := (source_entities w)(chat_id \<mapsto> entity)\<rparr>)"
  using assms
  by (simp add: get_chat_name_def io_bind_def io_try_def io_return_def client_get_entity_def)

lemma get_chat_name_failed:
  assumes "source_entities w chat_id = None"
    and "get_entity_reply cl (length (lookups w)) chat_id = Inl e"
  shows "get_chat_name cl chat_id w =
    (Inr (chat_label chat_id),
     w\<lparr>lookups := lookups w @ [chat_id],
       log := log w @ [(ERROR, str ''Error getting entity '' @ str_int chat_id @ str '': '' @ exn_str e)]\<rparr>)"
  using assms
  by (simp add: get_chat_name_def io_bind_def io_try_def io_return_def client_get_entity_def
      logger_error_def)

lemma get_chat_name_returns:
  "\<exists>name w'. get_chat_name cl chat_id w = (Inr name, w') \<and> outbox w' = outbox w \<and>
     running w' = running w"
proof (cases "source_entities w chat_id")
  case (Some entity)
  then show ?thesis by (simp add: get_chat_name_cached)
next
  case None
  show ?thesis
  proof (cases "get_entity_reply cl (length (lookups w)) chat_id")
    case (Inl e)
    with None show ?thesis by (simp add: get_chat_name_failed)
  next
    case (Inr entity)
    with None show ?thesis by (simp add: get_chat_name_found)
  qed
qed

lemma re_search_empty: "re_search uw [] = None"
  by (simp add: re_search_def match_at_def at_boundary_def)

lemma handler_effect:
  "fst (new_message_handler uw cl names dest_name dest ev w) = Inr () \<and>
   outbox (snd (new_message_handler uw cl names dest_name dest ev w)) = outbox w @
     (case event_text ev of
        None \<Rightarrow> []
      | Some body \<Rightarrow>
          (case re_search uw body of None \<Rightarrow> [] | Some m \<Rightarrow> [(dest, match_group body m)])) \<and>
   running (snd (new_message_handler uw cl names dest_name dest ev w)) = running w"
proof -
  obtain name w' where g: "get_chat_name cl (event_chat_id ev) w = (Inr name, w')"
    and o: "outbox w' = outbox w" and r: "running w' = running w"
    using get_chat_name_returns by blast
  show ?thesis
  proof (cases "event_text ev")
    case None
    then show ?thesis using g o r
      by (simp add: new_message_handler_def io_try_def io_bind_def io_return_def)
  next
    case (Some body)
    show ?thesis
    proof (cases "re_search uw body")
      case None
      then show ?thesis using Some g o r
        by (simp add: new_message_handler_def io_try_def io_bind_def io_return_def
            Let_def)
    next
      case (Some m)
      then have "body \<noteq> []" using re_search_empty by auto
      then show ?thesis using Some \<open>event_text ev = Some body\<close> g o r
        by (simp add: new_message_handler_def io_try_def io_bind_def io_return_def
            logger_info_def logger_error_def client_send_message_def Let_def split: option.split)
    qed
  qed
qed

lemma handler_outbox_match:
  assumes "event_text ev = Some s" "re_search uw s = Some (p, l)"
  shows "outbox (snd (new_message_handler uw cl names dest_name dest ev w)) =
    outbox w @ [(dest, take l (drop p s))]"
  using handler_effect [of uw cl names dest_name dest ev w] assms
  by (simp add: match_group_def)

lemma handler_outbox_no_match:
  assumes "event_text ev = Some s" "re_search uw s = None"
  shows "outbox (snd (new_message_handler uw cl names dest_name dest ev w)) = outbox w"
  using handler_effect [of uw cl names dest_name dest ev w] assms by simp

lemma handler_outbox_no_text:
  assumes "event_text ev = None"
  shows "outbox (snd (new_message_handler uw cl names dest_name dest ev w)) = outbox w"
  using handler_effect [of uw cl names dest_name dest ev w] assms by simp

lemma other_run_untouched:
  assumes "token_run uw s q m" "alnum_run s a n" "n \<noteq> 43" "n \<noteq> 44"
  shows "q + m \<le> a \<or> a + n \<le> q"
proof (rule ccontr)
  assume "\<not> (q + m \<le> a \<or> a + n \<le> q)"
  then have "a < q + m" "q < a + n" by simp_all
  moreover have "alnum_run s q m" using assms(1) by (rule token_run_maximal)
  ultimately have "q = a \<and> m = n" using assms(2) by (intro alnum_run_overlap)
  moreover have "m = 43 \<or> m = 44" using assms(1) by (simp add: token_run_def)
  ultimately show False using assms(3,4) by simp
qed

lemma first_token_run:
  assumes "token_run uw s p l"
  shows "\<exists>p0 l0. p0 \<le> p \<and> re_search uw s = Some (p0, l0)"
proof (cases "re_search uw s")
  case None
  then show ?thesis using assms by (simp add: re_search_None_iff)
next
  case (Some r)
  obtain p0 l0 where r: "r = (p0, l0)" by (cases r)
  have "\<forall>q<p0. \<forall>m. \<not> token_run uw s q m" using Some r by (simp add: re_search_Some_iff)
  then have "\<not> p < p0" using assms by blast
  then show ?thesis using Some r by simp
qed

section \<open>Claims about the relay callback\<close>

text \<open>
  Claim C1, as stated, fails: of two qualifying runs in one text only the first is
  forwarded. The 43-character run at position 46 of the example text is delimited by
  word boundaries, and the callback sends the 44-character run at position 0 and
  nothing else.
\<close>

theorem later_run_not_forwarded:
  "event_text two_token_event = Some two_token_text \<and>
   token_run no_more_words two_token_text 46 43 \<and>
   take 43 (drop 46 two_token_text) = token43 \<and>
   outbox (snd (new_message_handler no_more_words good_client no_names (str ''Archive'') 99
     two_token_event fresh_world)) = [(99, token44)] \<and>
   token43 \<noteq> token44"
  by code_simp

text \<open>
  Claim C1, amended. When the text of an inbound message contains a word-boundary-delimited
  run of exactly 43 or 44 ASCII alphanumeric characters, the callback hands exactly one
  text to \<open>send_message\<close> for the destination chat: the slice of the leftmost such run,
  unchanged. A run is therefore forwarded when no such run starts further left. A
  maximal alphanumeric run whose length is neither 43 nor 44 is disjoint from every
  match at every start position, and from the slice that is forwarded, if any: it is
  forwarded neither whole nor in part.
\<close>

theorem token_forwarded_verbatim:
  assumes "event_text ev = Some s"
  shows "(token_run uw s p l \<longrightarrow>
            (\<exists>p0 l0. p0 \<le> p \<and> token_run uw s p0 l0 \<and>
               (\<forall>q<p0. \<forall>m. \<not> token_run uw s q m) \<and>
               outbox (snd (new_message_handler uw cl names dest_name dest ev w)) =
                 outbox w @ [(dest, take l0 (drop p0 s))])) \<and>
         (token_run uw s p l \<and> (\<forall>q<p. \<forall>m. \<not> token_run uw s q m) \<longrightarrow>
            re_search uw s = Some (p, l) \<and>
            outbox (snd (new_message_handler uw cl names dest_name dest ev w)) =
              outbox w @ [(dest, take l (drop p s))]) \<and>
         (alnum_run s a n \<and> n \<noteq> 43 \<and> n \<noteq> 44 \<longrightarrow>
            (\<forall>q m. match_at uw s q = Some m \<longrightarrow> q + m \<le> a \<or> a + n \<le> q) \<and>
            (outbox (snd (new_message_handler uw cl names dest_name dest ev w)) = outbox w \<or>
             (\<exists>q m. re_search uw s = Some (q, m) \<and> (q + m \<le> a \<or> a + n \<le> q) \<and>
                outbox (snd (new_message_handler uw cl names dest_name dest ev w)) =
                  outbox w @ [(dest, take m (drop q s))])))"
proof (intro conjI impI)
  assume "token_run uw s p l"
  then obtain p0 l0 where le: "p0 \<le> p" and r: "re_search uw s = Some (p0, l0)"
    using first_token_run by blast
  have "outbox (snd (new_message_handler uw cl names dest_name dest ev w)) =
      outbox w @ [(dest, take l0 (drop p0 s))]"
    using assms r by (rule handler_outbox_match)
  then show "\<exists>p0 l0. p0 \<le> p \<and> token_run uw s p0 l0 \<and>
      (\<forall>q<p0. \<forall>m. \<not> token_run uw s q m) \<and>
      outbox (snd (new_message_handler uw cl names dest_name dest ev w)) =
        outbox w @ [(dest, take l0 (drop p0 s))]"
    using le r by (auto simp: re_search_Some_iff)
next
  assume h: "token_run uw s p l \<and> (\<forall>q<p. \<forall>m. \<not> token_run uw s q m)"
  then show r: "re_search uw s = Some (p, l)" by (simp add: re_search_Some_iff)
  show "outbox (snd (new_message_handler uw cl names dest_name dest ev w)) =
      outbox w @ [(dest, take l (drop p s))]"
    using assms r by (rule handler_outbox_match)
next
  assume h: "alnum_run s a n \<and> n \<noteq> 43 \<and> n \<noteq> 44"
  show "\<forall>q m. match_at uw s q = Some m \<longrightarrow> q + m \<le> a \<or> a + n \<le> q"
    using h other_run_untouched [of uw s _ _ a n] by (simp add: match_at_iff)
next
  assume h: "alnum_run s a n \<and> n \<noteq> 43 \<and> n \<noteq> 44"
  show "outbox (snd (new_message_handler uw cl names dest_name dest ev w)) = outbox w \<or>
      (\<exists>q m. re_search uw s = Some (q, m) \<and> (q + m \<le> a \<or> a + n \<le> q) \<and>
         outbox (snd (new_message_handler uw cl names dest_name dest ev w)) =
           outbox w @ [(dest, take m (drop q s))])"
  proof (cases "re_search uw s")
    case None
    with assms show ?thesis by (simp add: handler_outbox_no_match)
  next
    case (Some r)
    obtain q m where r: "r = (q, m)" by (cases r)
    have "token_run uw s q m" using Some r by (simp add: re_search_Some_iff)
    then have "q + m \<le> a \<or> a + n \<le> q"
      using h other_run_untouched [of uw s q m a n] by blast
    moreover have "outbox (snd (new_message_handler uw cl names dest_name dest ev w)) =
        outbox w @ [(dest, take m (drop q s))]"
      using assms Some r by (intro handler_outbox_match) simp_all
    ultimately show ?thesis using Some r by blast
  qed
qed

lemma prose_search: "re_search no_more_words prose_text = Some (10, 43)"
  by code_simp

theorem token_forwarded_verbatim_witness:
  "event_text prose_event = Some prose_text \<and>
   token_run no_more_words prose_text 10 43 \<and>
   alnum_run prose_text 0 5 \<and>
   re_search no_more_words prose_text = Some (10, 43) \<and>
   outbox (snd (new_message_handler no_more_words good_client no_names (str ''Archive'') 99
     prose_event fresh_world)) = [(99, token43)]"
proof -
  have e: "event_text prose_event = Some prose_text" by (simp add: prose_event_def)
  have t: "token_run no_more_words prose_text 10 43 \<and>
      (\<forall>q<10. \<forall>m. \<not> token_run no_more_words prose_text q m)"
    using prose_search by (simp add: re_search_Some_iff)
  have a: "alnum_run prose_text 0 5" by code_simp
  have g: "take 43 (drop 10 prose_text) = token43" by code_simp
  have o: "outbox fresh_world = []" by (simp add: fresh_world_def)
  show ?thesis
    using token_forwarded_verbatim [OF e, of no_more_words 10 43 good_client no_names
        "str ''Archive''" 99 fresh_world 0 5] e t a g o
    by simp
qed

lemma match_at_None_iff: "match_at uw s p = None \<longleftrightarrow> (\<forall>l. \<not> token_run uw s p l)"
  by (cases "match_at uw s p") (auto simp: match_at_iff [symmetric])

text \<open>
  Claim C2. One call of the callback adds at most one entry to what is handed to
  \<open>send_message\<close>. A message without text, with empty text, or with a text that has no
  qualifying run adds none. When the text has two qualifying runs, the single entry
  added is the leftmost qualifying run of the text, for the destination chat.
\<close>

theorem at_most_one_send:
  "(\<exists>sent. outbox (snd (new_message_handler uw cl names dest_name dest ev w)) = outbox w @ sent \<and>
      length sent \<le> 1) \<and>
   (event_text ev = None \<or> event_text ev = Some [] \<longrightarrow>
      outbox (snd (new_message_handler uw cl names dest_name dest ev w)) = outbox w) \<and>
   (event_text ev = Some s \<and> (\<forall>p l. \<not> token_run uw s p l) \<longrightarrow>
      outbox (snd (new_message_handler uw cl names dest_name dest ev w)) = outbox w) \<and>
   (event_text ev = Some s \<and> token_run uw s p l \<and> token_run uw s p' l' \<and> p < p' \<longrightarrow>
      (\<exists>p0 l0. p0 \<le> p \<and> token_run uw s p0 l0 \<and> (\<forall>q<p0. \<forall>m. \<not> token_run uw s q m) \<and>
         outbox (snd (new_message_handler uw cl names dest_name dest ev w)) =
           outbox w @ [(dest, take l0 (drop p0 s))]))"
proof (intro conjI impI)
  show "\<exists>sent. outbox (snd (new_message_handler uw cl names dest_name dest ev w)) = outbox w @ sent \<and>
      length sent \<le> 1"
    using handler_effect [of uw cl names dest_name dest ev w]
    by (auto split: option.split)
next
  assume "event_text ev = None \<or> event_text ev = Some []"
  then show "outbox (snd (new_message_handler uw cl names dest_name dest ev w)) = outbox w"
    by (elim disjE) (simp_all add: handler_outbox_no_text handler_outbox_no_match re_search_empty)
next
  assume "event_text ev = Some s \<and> (\<forall>p l. \<not> token_run uw s p l)"
  then show "outbox (snd (new_message_handler uw cl names dest_name dest ev w)) = outbox w"
    using handler_outbox_no_match [of ev s uw] by (simp add: re_search_None_iff)
next
  assume h: "event_text ev = Some s \<and> token_run uw s p l \<and> token_run uw s p' l' \<and> p < p'"
  then obtain p0 l0 where le: "p0 \<le> p" and r: "re_search uw s = Some (p0, l0)"
    using first_token_run by blast
  have "outbox (snd (new_message_handler uw cl names dest_name dest ev w)) =
      outbox w @ [(dest, take l0 (drop p0 s))]"
    using h r by (intro handler_outbox_match) simp_all
  then show "\<exists>p0 l0. p0 \<le> p \<and> token_run uw s p0 l0 \<and> (\<forall>q<p0. \<forall>m. \<not> token_run uw s q m) \<and>
      outbox (snd (new_message_handler uw cl names dest_name dest ev w)) =
        outbox w @ [(dest, take l0 (drop p0 s))]"
    using le r by (auto simp: re_search_Some_iff)
qed


lemma scenario_search: "re_search no_more_words scenario_text = None"
  by code_simp

theorem at_most_one_send_witness:
  "event_text two_token_event = Some two_token_text \<and>
   token_run no_more_words two_token_text 0 44 \<and>
   token_run no_more_words two_token_text 46 43 \<and>
   outbox (snd (new_message_handler no_more_words good_client no_names (str ''Archive'') 99
     two_token_event fresh_world)) = [(99, token44)] \<and>
   event_text photo_event = None \<and>
   outbox (snd (new_message_handler no_more_words good_client no_names (str ''Archive'') 99
     photo_event fresh_world)) = [] \<and>
   event_text scenario_event = Some scenario_text \<and>
   outbox (snd (new_message_handler no_more_words good_client no_names (str ''Archive'') 99
     scenario_event fresh_world)) = []"
proof -
  have e: "event_text two_token_event = Some two_token_text" by (simp add: two_token_event_def)
  have t1: "token_run no_more_words two_token_text 0 44" by code_simp
  have t2: "token_run no_more_words two_token_text 46 43" by code_simp
  have g: "take l0 (drop 0 two_token_text) = token44"
    if "token_run no_more_words two_token_text 0 l0" for l0
  proof -
    have "match_at no_more_words two_token_text 0 = Some l0" using that by (simp add: match_at_iff)
    moreover have "match_at no_more_words two_token_text 0 = Some 44"
      using t1 by (simp add: match_at_iff)
    ultimately have "l0 = 44" by simp
    moreover have "take 44 (drop 0 two_token_text) = token44" by code_simp
    ultimately show ?thesis by simp
  qed
  have o: "outbox fresh_world = []" by (simp add: fresh_world_def)
  have "\<exists>p0 l0. p0 \<le> 0 \<and> token_run no_more_words two_token_text p0 l0 \<and>
      (\<forall>q<p0. \<forall>m. \<not> token_run no_more_words two_token_text q m) \<and>
      outbox (snd (new_message_handler no_more_words good_client no_names (str ''Archive'') 99
        two_token_event fresh_world)) = outbox fresh_world @ [(99, take l0 (drop p0 two_token_text))]"
    using at_most_one_send [of no_more_words good_client no_names "str ''Archive''" 99
        two_token_event fresh_world two_token_text 0 44 46 43] e t1 t2
    by simp
  then have first: "outbox (snd (new_message_handler no_more_words good_client no_names
      (str ''Archive'') 99 two_token_event fresh_world)) = [(99, token44)]"
    using g o by auto
  have pe: "event_text photo_event = None" by (simp add: photo_event_def)
  have none: "outbox (snd (new_message_handler no_more_words good_client no_names
      (str ''Archive'') 99 photo_event fresh_world)) = []"
    using at_most_one_send [of no_more_words good_client no_names "str ''Archive''" 99
        photo_event fresh_world] pe o
    by simp
  have se: "event_text scenario_event = Some scenario_text" by (simp add: scenario_event_def)
  have nr: "\<forall>p l. \<not> token_run no_more_words scenario_text p l"
    using scenario_search by (simp add: re_search_None_iff)
  have short: "outbox (snd (new_message_handler no_more_words good_client no_names
      (str ''Archive'') 99 scenario_event fresh_world)) = []"
    using at_most_one_send [of no_more_words good_client no_names "str ''Archive''" 99
        scenario_event fresh_world scenario_text] se nr o
    by simp
  show ?thesis using e t1 t2 first pe none se short by simp
qed

text \<open>
  Claim C3, as stated, fails: a 43-character run that follows an underscore has a
  non-alphanumeric character on its left and the end of the text on its right, and is
  neither matched nor forwarded.
\<close>

theorem underscore_run_not_forwarded:
  "alnum_run underscore_text 1 43 \<and> underscore_text ! 0 = 95 \<and> \<not> in_class 95 \<and>
   re_search no_more_words underscore_text = None \<and>
   outbox (snd (new_message_handler no_more_words good_client no_names (str ''Archive'') 99
     underscore_event fresh_world)) = []"
  by code_simp

text \<open>
  Claim C3, amended. A maximal run of 43 or 44 ASCII alphanumeric characters is matched
  exactly when neither neighbour is a word character, where a missing neighbour (start
  or end of the text) is none; the word characters are the alphanumeric characters and
  the underscore. Such a run is forwarded when no match starts further left. A run next
  to an underscore is not matched.
\<close>

theorem run_matched_iff_no_word_neighbour:
  assumes "l = 43 \<or> l = 44" and "alnum_run s p l"
  shows "(match_at uw s p = Some l \<longleftrightarrow>
            (p = 0 \<or> \<not> is_word uw (s ! (p - 1))) \<and>
            (p + l = length s \<or> \<not> is_word uw (s ! (p + l)))) \<and>
         is_word uw 95 \<and>
         ((0 < p \<and> s ! (p - 1) = 95) \<or> (p + l < length s \<and> s ! (p + l) = 95) \<longrightarrow>
            match_at uw s p \<noteq> Some l) \<and>
         (match_at uw s p = Some l \<and> (\<forall>q<p. match_at uw s q = None) \<and> event_text ev = Some s \<longrightarrow>
            outbox (snd (new_message_handler uw cl names dest_name dest ev w)) =
              outbox w @ [(dest, take l (drop p s))])"
proof (intro conjI impI)
  have le: "p + l \<le> length s" and cls: "list_all in_class (take l (drop p s))"
    using assms(2) by (simp_all add: alnum_run_def)
  show "match_at uw s p = Some l \<longleftrightarrow>
      (p = 0 \<or> \<not> is_word uw (s ! (p - 1))) \<and> (p + l = length s \<or> \<not> is_word uw (s ! (p + l)))"
    unfolding match_at_iff using assms(1) le cls by (rule token_run_by_neighbours)
next
  show "is_word uw 95" by (simp add: is_word_def)
next
  have le: "p + l \<le> length s" and cls: "list_all in_class (take l (drop p s))"
    using assms(2) by (simp_all add: alnum_run_def)
  have u: "is_word uw 95" by (simp add: is_word_def)
  assume "(0 < p \<and> s ! (p - 1) = 95) \<or> (p + l < length s \<and> s ! (p + l) = 95)"
  then have "\<not> ((p = 0 \<or> \<not> is_word uw (s ! (p - 1))) \<and>
      (p + l = length s \<or> \<not> is_word uw (s ! (p + l))))"
    using u by auto
  then show "match_at uw s p \<noteq> Some l"
    unfolding match_at_iff using token_run_by_neighbours [OF assms(1) le cls, of uw] by blast
next
  assume h: "match_at uw s p = Some l \<and> (\<forall>q<p. match_at uw s q = None) \<and> event_text ev = Some s"
  have "\<forall>q<p. \<forall>m. \<not> token_run uw s q m"
  proof (intro allI impI)
    fix q m assume "q < p"
    then have "match_at uw s q = None" using h by blast
    then show "\<not> token_run uw s q m" by (simp add: match_at_iff [symmetric])
  qed
  then have "re_search uw s = Some (p, l)" using h by (simp add: re_search_Some_iff match_at_iff)
  then show "outbox (snd (new_message_handler uw cl names dest_name dest ev w)) =
      outbox w @ [(dest, take l (drop p s))]"
    using h by (intro handler_outbox_match) simp_all
qed

theorem run_matched_iff_no_word_neighbour_witness:
  "alnum_run prose_text 10 43 \<and> match_at no_more_words prose_text 10 = Some 43 \<and>
   \<not> is_word no_more_words (prose_text ! 9) \<and> \<not> is_word no_more_words (prose_text ! 53) \<and>
   event_text prose_event = Some prose_text \<and>
   outbox (snd (new_message_handler no_more_words good_client no_names (str ''Archive'') 99
     prose_event fresh_world)) = [(99, token43)] \<and>
   alnum_run underscore_text 1 43 \<and> underscore_text ! (1 - 1) = 95 \<and>
   match_at no_more_words underscore_text 1 \<noteq> Some 43"
proof -
  have a: "alnum_run prose_text 10 43" by code_simp
  have e: "event_text prose_event = Some prose_text" by (simp add: prose_event_def)
  have n: "\<not> is_word no_more_words (prose_text ! 9)" "\<not> is_word no_more_words (prose_text ! 53)"
    by code_simp+
  have f: "\<forall>q<10. match_at no_more_words prose_text q = None"
    using prose_search by (simp add: re_search_Some_iff match_at_None_iff)
  have g: "take 43 (drop 10 prose_text) = token43" by code_simp
  have o: "outbox fresh_world = []" by (simp add: fresh_world_def)
  have l: "(43::nat) = 43 \<or> (43::nat) = 44" by simp
  have first: "match_at no_more_words prose_text 10 = Some 43 \<and>
      outbox (snd (new_message_handler no_more_words good_client no_names (str ''Archive'') 99
        prose_event fresh_world)) = [(99, token43)]"
    using run_matched_iff_no_word_neighbour [OF l a, of no_more_words prose_event good_client
        no_names "str ''Archive''" 99 fresh_world] a e n f g o
    by simp
  have b: "alnum_run underscore_text 1 43" by code_simp
  have c: "underscore_text ! (1 - 1) = 95" by code_simp
  have "match_at no_more_words underscore_text 1 \<noteq> Some 43"
    using run_matched_iff_no_word_neighbour [OF l b, of no_more_words prose_event good_client
        no_names "str ''Archive''" 99 fresh_world] c
    by simp
  then show ?thesis using a e n first b c by simp
qed

section \<open>Claims about the name cache\<close>

text \<open>
  Claim C4, as stated, fails: when the lookup fails, nothing is cached, and a second
  call for the same chat asks the client again.
\<close>

theorem failed_lookup_repeated:
  "lookups (snd (get_chat_name failing_client 5 fresh_world)) = [5] \<and>
   lookups (snd (get_chat_name failing_client 5 (snd (get_chat_name failing_client 5 fresh_world))))
     = [5, 5]"
  by code_simp

text \<open>
  Claim C4, amended. \<open>get_chat_name\<close> never raises and makes at most one call of
  \<open>get_entity\<close>. When the chat is in the cache after a first call (it was cached
  before, or the lookup succeeded, with or without a title), a second call for the same
  chat makes no call of \<open>get_entity\<close>, changes nothing and returns the same name. A
  failed lookup is not cached.
\<close>

theorem get_chat_name_idempotent_when_cached:
  "(\<exists>name. fst (get_chat_name cl chat_id w) = Inr name) \<and>
   (lookups (snd (get_chat_name cl chat_id w)) = lookups w \<or>
    lookups (snd (get_chat_name cl chat_id w)) = lookups w @ [chat_id]) \<and>
   (source_entities (snd (get_chat_name cl chat_id w)) chat_id \<noteq> None \<longrightarrow>
      get_chat_name cl chat_id (snd (get_chat_name cl chat_id w)) =
        (fst (get_chat_name cl chat_id w), snd (get_chat_name cl chat_id w))) \<and>
   (source_entities w chat_id = None \<and>
    get_entity_reply cl (length (lookups w)) chat_id = Inr entity \<longrightarrow>
      source_entities (snd (get_chat_name cl chat_id w)) chat_id = Some entity) \<and>
   (source_entities w chat_id = None \<and>
    get_entity_reply cl (length (lookups w)) chat_id = Inl e \<longrightarrow>
      source_entities (snd (get_chat_name cl chat_id w)) chat_id = None)"
proof (cases "source_entities w chat_id")
  case (Some cached)
  then show ?thesis by (simp add: get_chat_name_cached)
next
  case None
  show ?thesis
  proof (cases "get_entity_reply cl (length (lookups w)) chat_id")
    case (Inl x)
    with None show ?thesis by (simp add: get_chat_name_failed)
  next
    case (Inr found)
    with None show ?thesis by (simp add: get_chat_name_found get_chat_name_cached)
  qed
qed

theorem get_chat_name_idempotent_when_cached_witness:
  "source_entities fresh_world 5 = None \<and>
   get_entity_reply untitled_client (length (lookups fresh_world)) 5 = Inr (Entity None) \<and>
   fst (get_chat_name untitled_client 5 fresh_world) = Inr (str ''Chat 5'') \<and>
   lookups (snd (get_chat_name untitled_client 5 fresh_world)) = [5] \<and>
   get_chat_name untitled_client 5 (snd (get_chat_name untitled_client 5 fresh_world)) =
     (Inr (str ''Chat 5''), snd (get_chat_name untitled_client 5 fresh_world)) \<and>
   get_entity_reply failing_client (length (lookups fresh_world)) 5 = Inl lookup_error \<and>
   source_entities (snd (get_chat_name failing_client 5 fresh_world)) 5 = None"
proof -
  have c: "source_entities fresh_world 5 = None" by (simp add: fresh_world_def)
  have r: "get_entity_reply untitled_client (length (lookups fresh_world)) 5 = Inr (Entity None)"
    by (simp add: untitled_client_def)
  have n: "fst (get_chat_name untitled_client 5 fresh_world) = Inr (str ''Chat 5'')" by code_simp
  have l: "lookups (snd (get_chat_name untitled_client 5 fresh_world)) = [5]" by code_simp
  have again: "get_chat_name untitled_client 5 (snd (get_chat_name untitled_client 5 fresh_world)) =
      (Inr (str ''Chat 5''), snd (get_chat_name untitled_client 5 fresh_world))"
    using get_chat_name_idempotent_when_cached [of untitled_client 5 fresh_world "Entity None"] c r n
    by simp
  have f: "get_entity_reply failing_client (length (lookups fresh_world)) 5 = Inl lookup_error"
    by (simp add: failing_client_def)
  have "source_entities (snd (get_chat_name failing_client 5 fresh_world)) 5 = None"
    using get_chat_name_idempotent_when_cached [of failing_client 5 fresh_world _ lookup_error] c f
    by simp
  then show ?thesis using c r n l again f by simp
qed

section \<open>Claims about failures in the callback\<close>





section \<open>Properties of the config store\<close>

lemmas io_defs = io_try_def io_bind_def io_return_def io_raise_def path_exists_def read_json_def
  open_for_writing_def json_dump_def logger_error_def

lemma load_credentials_missing:
  "config_file w = None \<Longrightarrow> load_credentials w = (Inr (PNone, PNone, PNone), w)"
  by (simp add: load_credentials_def io_defs)

lemma load_credentials_fails:
  "config_file w = Some (Fails e) \<Longrightarrow>
   load_credentials w =
     (Inr (PNone, PNone, PNone),
      w\<lparr>log := log w @ [(ERROR, str ''Error loading credentials: '' @ exn_str e)]\<rparr>)"
  by (simp add: load_credentials_def io_defs)

lemma load_credentials_dict:
  "config_file w = Some (Parses (PDict d)) \<Longrightarrow>
   load_credentials w =
     (Inr (dict_get d (str ''api_id''), dict_get d (str ''api_hash''),
           dict_get d (str ''phone_number'')), w)"
  by (simp add: load_credentials_def io_defs)

lemma py_get_other:
  "\<forall>d. v \<noteq> PDict d \<Longrightarrow> \<exists>e. py_get v k = io_raise e"
  by (cases v) auto

lemma load_credentials_other:
  assumes "config_file w = Some (Parses v)" "\<forall>d. v \<noteq> PDict d"
  shows "\<exists>msg. load_credentials w =
     (Inr (PNone, PNone, PNone), w\<lparr>log := log w @ [(ERROR, msg)]\<rparr>)"
proof -
  obtain e where "py_get v (str ''api_id'') = io_raise e" using py_get_other [OF assms(2)] by blast
  then show ?thesis using assms(1) by (auto simp: load_credentials_def io_defs)
qed

lemma load_chat_config_missing:
  "config_file w = None \<Longrightarrow> load_chat_config w = (Inr (PNone, PNone), w)"
  by (simp add: load_chat_config_def io_defs)

lemma load_chat_config_fails:
  "config_file w = Some (Fails e) \<Longrightarrow>
   load_chat_config w =
     (Inr (PNone, PNone),
      w\<lparr>log := log w @ [(ERROR, str ''Error loading chat config: '' @ exn_str e)]\<rparr>)"
  by (simp add: load_chat_config_def io_defs)

lemma load_chat_config_dict:
  "config_file w = Some (Parses (PDict d)) \<Longrightarrow>
   load_chat_config w =
     (Inr (dict_get d (str ''source_chat_ids''), dict_get d (str ''destination_chat_id'')), w)"
  by (simp add: load_chat_config_def io_defs)

lemma load_chat_config_other:
  assumes "config_file w = Some (Parses v)" "\<forall>d. v \<noteq> PDict d"
  shows "\<exists>msg. load_chat_config w = (Inr (PNone, PNone), w\<lparr>log := log w @ [(ERROR, msg)]\<rparr>)"
proof -
  obtain e where "py_get v (str ''source_chat_ids'') = io_raise e"
    using py_get_other [OF assms(2)] by blast
  then show ?thesis using assms(1) by (auto simp: load_chat_config_def io_defs)
qed

text \<open>The three keys written by \<open>save_chat_config\<close>, applied to a dict.\<close>

lemma save_chat_config_dict:
  assumes "config_file w = Some (Parses (PDict d))" "open_fault w = None" "dump_fault w = None"
  shows "save_chat_config now ids dest w =
    (Inr (), w\<lparr>config_file := Some (Parses (PDict
       (AList.update (str ''last_updated'') (PStr now)
         (AList.update (str ''destination_chat_id'') (PInt dest)
           (AList.update (str ''source_chat_ids'') (PList (map PInt ids)) d)))))\<rparr>)"
  using assms by (simp add: save_chat_config_def io_defs)


lemma save_chat_config_fails:
  assumes "config_file w = Some (Fails e)"
  shows "save_chat_config now ids dest w =
    (Inr (), w\<lparr>log := log w @ [(ERROR, str ''Error saving chat config: '' @ exn_str e)]\<rparr>)"
  using assms by (simp add: save_chat_config_def io_defs)

text \<open>
  The write is not atomic: when the file was opened and the dump raises, the old content
  is lost and the file is left unparsable.
\<close>

lemma save_chat_config_torn:
  assumes "config_file w = None \<or> config_file w = Some (Parses (PDict d))"
    and "open_fault w = None" "dump_fault w = Some e"
  shows "save_chat_config now ids dest w =
    (Inr (), w\<lparr>config_file := Some (Fails (torn_read w)),
              log := log w @ [(ERROR, str ''Error saving chat config: '' @ exn_str e)]\<rparr>)"
  using assms by (auto simp: save_chat_config_def io_defs)

lemma save_credentials_torn:
  assumes "open_fault w = None" "dump_fault w = Some e"
  shows "save_credentials os_name api_id api_hash phone_number w =
    (Inr (), w\<lparr>config_file := Some (Fails (torn_read w)),
              log := log w @ [(ERROR, str ''Error saving credentials: '' @ exn_str e)]\<rparr>)"
  using assms by (simp add: save_credentials_def io_defs Let_def)

lemma key_distinct:
  "str ''source_chat_ids'' \<noteq> str ''destination_chat_id''"
  "str ''source_chat_ids'' \<noteq> str ''last_updated''"
  "str ''destination_chat_id'' \<noteq> str ''last_updated''"
  "str ''destination_chat_id'' \<noteq> str ''source_chat_ids''"
  "str ''last_updated'' \<noteq> str ''source_chat_ids''"
  "str ''last_updated'' \<noteq> str ''destination_chat_id''"
  "str ''api_id'' \<noteq> str ''source_chat_ids''"
  "str ''api_id'' \<noteq> str ''destination_chat_id''"
  "str ''api_id'' \<noteq> str ''last_updated''"
  "str ''api_hash'' \<noteq> str ''source_chat_ids''"
  "str ''api_hash'' \<noteq> str ''destination_chat_id''"
  "str ''api_hash'' \<noteq> str ''last_updated''"
  "str ''phone_number'' \<noteq> str ''source_chat_ids''"
  "str ''phone_number'' \<noteq> str ''destination_chat_id''"
  "str ''phone_number'' \<noteq> str ''last_updated''"
  by (simp_all add: str_def)

lemma dict_get_update: "dict_get (AList.update k v d) k' = (if k' = k then v else dict_get d k')"
  by (simp add: dict_get_def update_conv')

lemma saved_chat_fields:
  "dict_get (AList.update (str ''last_updated'') (PStr now)
      (AList.update (str ''destination_chat_id'') (PInt dest)
        (AList.update (str ''source_chat_ids'') (PList (map PInt ids)) d))) (str ''source_chat_ids'')
     = PList (map PInt ids)"
  "dict_get (AList.update (str ''last_updated'') (PStr now)
      (AList.update (str ''destination_chat_id'') (PInt dest)
        (AList.update (str ''source_chat_ids'') (PList (map PInt ids)) d))) (str ''destination_chat_id'')
     = PInt dest"
  "dict_get (AList.update (str ''last_updated'') (PStr now)
      (AList.update (str ''destination_chat_id'') (PInt dest)
        (AList.update (str ''source_chat_ids'') (PList (map PInt ids)) d))) (str ''last_updated'')
     = PStr now"
  by (simp_all add: dict_get_update key_distinct)

lemma saved_other_fields:
  assumes "k \<noteq> str ''source_chat_ids''" "k \<noteq> str ''destination_chat_id''" "k \<noteq> str ''last_updated''"
  shows "map_of (AList.update (str ''last_updated'') (PStr now)
      (AList.update (str ''destination_chat_id'') (PInt dest)
        (AList.update (str ''source_chat_ids'') (PList (map PInt ids)) d))) k = map_of d k"
  using assms by (simp add: update_conv')

section \<open>Claims about the config store\<close>




text \<open>
  Claim C6, as stated, fails: an existing file whose content is the JSON array \<open>[]\<close>
  is left as it is, so its \<open>source_chat_ids\<close> and \<open>destination_chat_id\<close> are not the
  arguments of the call.
\<close>

theorem save_chat_config_on_array:
  "config_file list_world = Some (Parses (PList [])) \<and>
   config_file (snd (save_chat_config stamp [11, 22] 99 list_world)) = Some (Parses (PList [])) \<and>
   fst (load_chat_config (snd (save_chat_config stamp [11, 22] 99 list_world))) =
     Inr (PNone, PNone)"
  by code_simp

text \<open>
  Claim C6, amended. When the existing config file holds a JSON object and the rewrite
  of the file succeeds (neither the open for writing nor the dump up to the close of the
  file raises), \<open>save_chat_config\<close> rewrites it as an object in which \<open>source_chat_ids\<close>,
  \<open>destination_chat_id\<close> and \<open>last_updated\<close> are the list, the destination and the
  current timestamp, and every other key, the three credential fields among them, has
  the value it had; \<open>load_credentials\<close> returns what it returned before.
\<close>

theorem save_chat_config_keeps_credentials:
  assumes "config_file w = Some (Parses (PDict d))"
    and "open_fault w = None" and "dump_fault w = None"
  shows "\<exists>d'. config_file (snd (save_chat_config now ids dest w)) = Some (Parses (PDict d')) \<and>
    dict_get d' (str ''api_id'') = dict_get d (str ''api_id'') \<and>
    dict_get d' (str ''api_hash'') = dict_get d (str ''api_hash'') \<and>
    dict_get d' (str ''phone_number'') = dict_get d (str ''phone_number'') \<and>
    (\<forall>k. k \<noteq> str ''source_chat_ids'' \<and> k \<noteq> str ''destination_chat_id'' \<and>
         k \<noteq> str ''last_updated'' \<longrightarrow> map_of d' k = map_of d k) \<and>
    dict_get d' (str ''source_chat_ids'') = PList (map PInt ids) \<and>
    dict_get d' (str ''destination_chat_id'') = PInt dest \<and>
    dict_get d' (str ''last_updated'') = PStr now \<and>
    fst (load_credentials (snd (save_chat_config now ids dest w))) = fst (load_credentials w)"
proof -
  define d' where "d' = AList.update (str ''last_updated'') (PStr now)
      (AList.update (str ''destination_chat_id'') (PInt dest)
        (AList.update (str ''source_chat_ids'') (PList (map PInt ids)) d))"
  have s: "save_chat_config now ids dest w = (Inr (), w\<lparr>config_file := Some (Parses (PDict d'))\<rparr>)"
    unfolding d'_def using assms by (rule save_chat_config_dict)
  have f: "config_file (snd (save_chat_config now ids dest w)) = Some (Parses (PDict d'))"
    by (simp add: s)
  have o: "map_of d' k = map_of d k"
    if "k \<noteq> str ''source_chat_ids''" "k \<noteq> str ''destination_chat_id''" "k \<noteq> str ''last_updated''"
    for k unfolding d'_def using that by (rule saved_other_fields)
  have c: "dict_get d' (str ''api_id'') = dict_get d (str ''api_id'')"
    "dict_get d' (str ''api_hash'') = dict_get d (str ''api_hash'')"
    "dict_get d' (str ''phone_number'') = dict_get d (str ''phone_number'')"
    by (simp_all add: dict_get_def o key_distinct)
  have n: "dict_get d' (str ''source_chat_ids'') = PList (map PInt ids)"
    "dict_get d' (str ''destination_chat_id'') = PInt dest"
    "dict_get d' (str ''last_updated'') = PStr now"
    unfolding d'_def by (rule saved_chat_fields)+
  have l: "fst (load_credentials (snd (save_chat_config now ids dest w))) = fst (load_credentials w)"
    using assms(1) c by (simp add: s load_credentials_dict)
  show ?thesis using f o c n l by blast
qed

theorem save_chat_config_keeps_credentials_witness:
  "config_file credentials_world = Some (Parses credentials_only) \<and>
   open_fault credentials_world = None \<and> dump_fault credentials_world = None \<and>
   fst (load_credentials credentials_world) =
     Inr (PStr (str ''1''), PStr (str ''h''), PStr (str ''+100'')) \<and>
   fst (load_credentials (snd (save_chat_config stamp [11, 22] 99 credentials_world))) =
     Inr (PStr (str ''1''), PStr (str ''h''), PStr (str ''+100''))"
proof -
  have b: "config_file credentials_world =
      Some (Parses (PDict [(str ''api_id'', PStr (str ''1'')), (str ''api_hash'', PStr (str ''h'')),
            (str ''phone_number'', PStr (str ''+100''))]))"
    "open_fault credentials_world = None" "dump_fault credentials_world = None"
    by (simp_all add: credentials_world_def fresh_world_def credentials_only_def)
  have l: "fst (load_credentials credentials_world) =
     Inr (PStr (str ''1''), PStr (str ''h''), PStr (str ''+100''))" by code_simp
  show ?thesis
    using save_chat_config_keeps_credentials [OF b, of stamp "[11, 22]" 99] b l
    by (auto simp: credentials_only_def)
qed




text \<open>
  Claim C8. Both loaders return normally in every state. \<open>load_credentials\<close> returns
  \<open>(None, None, None)\<close> when the file is missing, and, with an error record in the log,
  when reading or parsing it raises or its content is not an object; otherwise it
  returns the three stored values, \<open>None\<close> standing for an absent key. \<open>load_chat_config\<close>
  does the same with \<open>(None, None)\<close> and the two chat keys.
\<close>

theorem loaders_never_raise:
  "(\<exists>r. fst (load_credentials w) = Inr r) \<and>
   (\<exists>r. fst (load_chat_config w) = Inr r) \<and>
   (config_file w = None \<longrightarrow>
      load_credentials w = (Inr (PNone, PNone, PNone), w) \<and>
      load_chat_config w = (Inr (PNone, PNone), w)) \<and>
   (config_file w = Some (Fails e) \<longrightarrow>
      load_credentials w =
        (Inr (PNone, PNone, PNone),
         w\<lparr>log := log w @ [(ERROR, str ''Error loading credentials: '' @ exn_str e)]\<rparr>) \<and>
      load_chat_config w =
        (Inr (PNone, PNone),
         w\<lparr>log := log w @ [(ERROR, str ''Error loading chat config: '' @ exn_str e)]\<rparr>)) \<and>
   (config_file w = Some (Parses (PDict d)) \<longrightarrow>
      load_credentials w =
        (Inr (dict_get d (str ''api_id''), dict_get d (str ''api_hash''),
              dict_get d (str ''phone_number'')), w) \<and>
      load_chat_config w =
        (Inr (dict_get d (str ''source_chat_ids''), dict_get d (str ''destination_chat_id'')), w)) \<and>
   (config_file w = Some (Parses (PDict d)) \<and> map_of d (str ''source_chat_ids'') = None \<and>
    map_of d (str ''destination_chat_id'') = None \<longrightarrow>
      load_chat_config w = (Inr (PNone, PNone), w)) \<and>
   (config_file w = Some (Parses v) \<and> (\<forall>c. v \<noteq> PDict c) \<longrightarrow>
      (\<exists>msg. load_credentials w =
         (Inr (PNone, PNone, PNone), w\<lparr>log := log w @ [(ERROR, msg)]\<rparr>)) \<and>
      (\<exists>msg. load_chat_config w =
         (Inr (PNone, PNone), w\<lparr>log := log w @ [(ERROR, msg)]\<rparr>)))"
proof -
  have total: "(\<exists>r. fst (load_credentials w) = Inr r) \<and> (\<exists>r. fst (load_chat_config w) = Inr r)"
  proof (cases "config_file w")
    case None
    then show ?thesis by (simp add: load_credentials_missing load_chat_config_missing)
  next
    case (Some st)
    show ?thesis
    proof (cases st)
      case (Fails x)
      then show ?thesis using Some by (simp add: load_credentials_fails load_chat_config_fails)
    next
      case (Parses u)
      show ?thesis
      proof (cases "\<exists>c. u = PDict c")
        case True
        then show ?thesis using Some Parses
          by (auto simp: load_credentials_dict load_chat_config_dict)
      next
        case False
        then have nd: "\<forall>c. u \<noteq> PDict c" by simp
        have f: "config_file w = Some (Parses u)" using Some Parses by simp
        obtain m1 m2 where
          "load_credentials w = (Inr (PNone, PNone, PNone), w\<lparr>log := log w @ [(ERROR, m1)]\<rparr>)"
          "load_chat_config w = (Inr (PNone, PNone), w\<lparr>log := log w @ [(ERROR, m2)]\<rparr>)"
          using load_credentials_other [OF f nd] load_chat_config_other [OF f nd] by blast
        then show ?thesis by simp
      qed
    qed
  qed
  have keys: "load_chat_config w = (Inr (PNone, PNone), w)"
    if "config_file w = Some (Parses (PDict d))" "map_of d (str ''source_chat_ids'') = None"
      "map_of d (str ''destination_chat_id'') = None"
    using that by (simp add: load_chat_config_dict dict_get_def)
  show ?thesis
    using total keys load_credentials_missing [of w] load_chat_config_missing [of w]
      load_credentials_fails [of w e] load_chat_config_fails [of w e]
      load_credentials_dict [of w d] load_chat_config_dict [of w d]
      load_credentials_other [of w v] load_chat_config_other [of w v]
    by blast
qed

theorem loaders_never_raise_witness:
  "config_file fresh_world = None \<and>
   load_credentials fresh_world = (Inr (PNone, PNone, PNone), fresh_world) \<and>
   load_chat_config fresh_world = (Inr (PNone, PNone), fresh_world) \<and>
   config_file corrupt_world = Some (Fails parse_error) \<and>
   fst (load_credentials corrupt_world) = Inr (PNone, PNone, PNone) \<and>
   log (snd (load_credentials corrupt_world)) =
     [(ERROR, str ''Error loading credentials: '' @ exn_str parse_error)] \<and>
   fst (load_chat_config corrupt_world) = Inr (PNone, PNone) \<and>
   config_file credentials_world = Some (Parses credentials_only) \<and>
   fst (load_credentials credentials_world) =
     Inr (PStr (str ''1''), PStr (str ''h''), PStr (str ''+100'')) \<and>
   load_chat_config credentials_world = (Inr (PNone, PNone), credentials_world) \<and>
   config_file list_world = Some (Parses (PList [])) \<and>
   fst (load_credentials list_world) = Inr (PNone, PNone, PNone) \<and>
   fst (load_chat_config list_world) = Inr (PNone, PNone)"
proof -
  have a: "config_file fresh_world = None" by (simp add: fresh_world_def)
  have b: "config_file corrupt_world = Some (Fails parse_error)" "log corrupt_world = []"
    by (simp_all add: corrupt_world_def fresh_world_def)
  have c: "config_file credentials_world =
      Some (Parses (PDict [(str ''api_id'', PStr (str ''1'')), (str ''api_hash'', PStr (str ''h'')),
            (str ''phone_number'', PStr (str ''+100''))]))"
    by (simp add: credentials_world_def fresh_world_def credentials_only_def)
  have ck: "map_of [(str ''api_id'', PStr (str ''1'')), (str ''api_hash'', PStr (str ''h'')),
            (str ''phone_number'', PStr (str ''+100''))] (str ''source_chat_ids'') = None"
    "map_of [(str ''api_id'', PStr (str ''1'')), (str ''api_hash'', PStr (str ''h'')),
            (str ''phone_number'', PStr (str ''+100''))] (str ''destination_chat_id'') = None"
    using key_distinct by simp_all
  have cv: "dict_get [(str ''api_id'', PStr (str ''1'')), (str ''api_hash'', PStr (str ''h'')),
            (str ''phone_number'', PStr (str ''+100''))] (str ''api_id'') = PStr (str ''1'')"
    "dict_get [(str ''api_id'', PStr (str ''1'')), (str ''api_hash'', PStr (str ''h'')),
            (str ''phone_number'', PStr (str ''+100''))] (str ''api_hash'') = PStr (str ''h'')"
    "dict_get [(str ''api_id'', PStr (str ''1'')), (str ''api_hash'', PStr (str ''h'')),
            (str ''phone_number'', PStr (str ''+100''))] (str ''phone_number'') = PStr (str ''+100'')"
    by code_simp+
  have d: "config_file list_world = Some (Parses (PList []))" "\<forall>c. PList [] \<noteq> PDict c"
    by (simp_all add: list_world_def fresh_world_def)
  have 1: "load_credentials fresh_world = (Inr (PNone, PNone, PNone), fresh_world) \<and>
      load_chat_config fresh_world = (Inr (PNone, PNone), fresh_world)"
    using loaders_never_raise [of fresh_world parse_error "[]" PNone] a by simp
  have 2: "fst (load_credentials corrupt_world) = Inr (PNone, PNone, PNone) \<and>
      log (snd (load_credentials corrupt_world)) =
        [(ERROR, str ''Error loading credentials: '' @ exn_str parse_error)] \<and>
      fst (load_chat_config corrupt_world) = Inr (PNone, PNone)"
    using loaders_never_raise [of corrupt_world parse_error "[]" PNone] b by simp
  have "load_credentials credentials_world =
        (Inr (dict_get [(str ''api_id'', PStr (str ''1'')), (str ''api_hash'', PStr (str ''h'')),
                (str ''phone_number'', PStr (str ''+100''))] (str ''api_id''),
              dict_get [(str ''api_id'', PStr (str ''1'')), (str ''api_hash'', PStr (str ''h'')),
                (str ''phone_number'', PStr (str ''+100''))] (str ''api_hash''),
              dict_get [(str ''api_id'', PStr (str ''1'')), (str ''api_hash'', PStr (str ''h'')),
                (str ''phone_number'', PStr (str ''+100''))] (str ''phone_number'')),
         credentials_world) \<and>
      load_chat_config credentials_world = (Inr (PNone, PNone), credentials_world)"
    using loaders_never_raise [of credentials_world parse_error
        "[(str ''api_id'', PStr (str ''1'')), (str ''api_hash'', PStr (str ''h'')),
            (str ''phone_number'', PStr (str ''+100''))]" PNone] c ck
    by blast
  then have 3: "fst (load_credentials credentials_world) =
      Inr (PStr (str ''1''), PStr (str ''h''), PStr (str ''+100'')) \<and>
      load_chat_config credentials_world = (Inr (PNone, PNone), credentials_world)"
    by (simp add: cv)
  have 4: "fst (load_credentials list_world) = Inr (PNone, PNone, PNone) \<and>
      fst (load_chat_config list_world) = Inr (PNone, PNone)"
    using loaders_never_raise [of list_world parse_error "[]" "PList []"] d by auto
  show ?thesis using a b(1) c d(1) 1 2 3 4 by (simp add: credentials_only_def)
qed

text \<open>
  Claim C10. When the config file exists and reading or parsing it raises,
  \<open>save_chat_config\<close> returns normally, adds one error record to the log and changes
  nothing else: the file is as it was.
\<close>

theorem save_chat_config_read_error:
  assumes "config_file w = Some (Fails e)"
  shows "save_chat_config now ids dest w =
      (Inr (), w\<lparr>log := log w @ [(ERROR, str ''Error saving chat config: '' @ exn_str e)]\<rparr>) \<and>
    config_file (snd (save_chat_config now ids dest w)) = config_file w"
  using assms by (simp add: save_chat_config_fails)

theorem save_chat_config_read_error_witness:
  "config_file corrupt_world = Some (Fails parse_error) \<and>
   fst (save_chat_config stamp [11, 22] 99 corrupt_world) = Inr () \<and>
   config_file (snd (save_chat_config stamp [11, 22] 99 corrupt_world)) =
     Some (Fails parse_error) \<and>
   log (snd (save_chat_config stamp [11, 22] 99 corrupt_world)) =
     [(ERROR, str ''Error saving chat config: '' @ exn_str parse_error)]"
proof -
  have b: "config_file corrupt_world = Some (Fails parse_error)" "log corrupt_world = []"
    by (simp_all add: corrupt_world_def fresh_world_def)
  show ?thesis
    using save_chat_config_read_error [OF b(1), of stamp "[11, 22]" 99] b
    by simp
qed

end
